theory Spec2Isabelle
  imports Complex_Main
begin

section \<open>Strings of the runtime\<close>

text \<open>
  A JavaScript string is modelled as a \<^typ>\<open>string\<close>: a list of code units, each below 256
  (the Latin-1 range). On that range the white space of \<open>String.prototype.trim\<close> and of
  \<open>parseInt\<close> is TAB, LF, VT, FF, CR, SPACE and NBSP, and \<open>toLowerCase\<close> moves
  \<open>A..Z\<close> and the accented capitals \<open>0xC0..0xDE\<close> (the multiplication sign \<open>0xD7\<close> apart)
  32 places up and leaves every other code unit alone; no string of that range changes its
  length or depends on context when lowered. A string holding a code unit from 256 on is
  outside the model: there the runtime's \<open>toLowerCase\<close> follows the Unicode tables.
\<close>

definition isStrWhiteSpaceChar :: "char \<Rightarrow> bool" where
  "isStrWhiteSpaceChar c =
     (c = CHR 0x09 \<or> c = CHR 0x0A \<or> c = CHR 0x0B \<or> c = CHR 0x0C \<or> c = CHR 0x0D
      \<or> c = CHR 0x20 \<or> c = CHR 0xA0)"

definition trim :: "string \<Rightarrow> string" where
  "trim s = rev (dropWhile isStrWhiteSpaceChar (rev (dropWhile isStrWhiteSpaceChar s)))"

definition toLowerChar :: "char \<Rightarrow> char" where
  "toLowerChar c =
     (let n = (of_char c :: nat)
      in if (65 \<le> n \<and> n \<le> 90) \<or> (192 \<le> n \<and> n \<le> 222 \<and> n \<noteq> 215)
         then char_of (n + 32) else c)"

definition toLowerCase :: "string \<Rightarrow> string" where
  "toLowerCase s = map toLowerChar s"

text \<open>
  \<open>s.includes(t)\<close>: some position of \<open>s\<close> starts a copy of \<open>t\<close>. The scan tries
  every position from the left, the end of the string included (where only the empty
  string fits).
\<close>

primrec includes_str :: "string \<Rightarrow> string \<Rightarrow> bool" where
  "includes_str [] t = (t = [])"
| "includes_str (c # s) t = (take (length t) (c # s) = t \<or> includes_str s t)"

text \<open>
  \<open>x || d\<close> on an optional string: \<open>undefined\<close> and the empty string are falsy, so the
  default is taken for both. \<open>orNull\<close> is \<open>x || null\<close>, and \<open>truthy\<close> is the test
  \<open>if (x)\<close> on a value of type \<open>string | null\<close>.
\<close>

definition orDefault :: "string option \<Rightarrow> string \<Rightarrow> string" where
  "orDefault x d = (case x of None \<Rightarrow> d | Some s \<Rightarrow> if s = [] then d else s)"

definition orNull :: "string option \<Rightarrow> string option" where
  "orNull x = (case x of None \<Rightarrow> None | Some s \<Rightarrow> if s = [] then None else Some s)"

definition truthy :: "string option \<Rightarrow> bool" where
  "truthy x = (case x of None \<Rightarrow> False | Some s \<Rightarrow> s \<noteq> [])"

section \<open>Numbers of the runtime\<close>

text \<open>
  A JavaScript number is \<open>NaN\<close>, an infinity or a finite value. Finite values are kept
  exact (a rational). Every integer of magnitude up to \<open>2^53\<close> is a double, which covers
  the length of any array and a page parameter of up to 15 digits; a longer run of digits
  is rounded by the runtime and kept exact here. The one quotient the page takes,
  \<open>total / pageSize\<close>, is only ever rounded up to an integer by \<open>Math.ceil\<close>: an array
  length is below \<open>2^32\<close> and the divisor is an integer of at most 100, so a quotient
  that is not an integer is at least a hundredth away from the nearest integers, far more
  than the rounding of a double of that size, and the double has the ceiling of the exact
  quotient. Negative zero is identified with zero; the page never divides by it.
\<close>

datatype jsnum = NaN | Fin rat | PosInf | NegInf

fun Math_max :: "jsnum \<Rightarrow> jsnum \<Rightarrow> jsnum" where
  "Math_max NaN y = NaN"
| "Math_max x NaN = NaN"
| "Math_max PosInf y = PosInf"
| "Math_max x PosInf = PosInf"
| "Math_max NegInf y = y"
| "Math_max x NegInf = x"
| "Math_max (Fin a) (Fin b) = Fin (max a b)"

fun Math_min :: "jsnum \<Rightarrow> jsnum \<Rightarrow> jsnum" where
  "Math_min NaN y = NaN"
| "Math_min x NaN = NaN"
| "Math_min NegInf y = NegInf"
| "Math_min x NegInf = NegInf"
| "Math_min PosInf y = y"
| "Math_min x PosInf = x"
| "Math_min (Fin a) (Fin b) = Fin (min a b)"

fun Math_ceil :: "jsnum \<Rightarrow> jsnum" where
  "Math_ceil (Fin a) = Fin (of_int \<lceil>a\<rceil>)"
| "Math_ceil x = x"

fun js_neg :: "jsnum \<Rightarrow> jsnum" where
  "js_neg NaN = NaN"
| "js_neg (Fin a) = Fin (- a)"
| "js_neg PosInf = NegInf"
| "js_neg NegInf = PosInf"

fun js_add :: "jsnum \<Rightarrow> jsnum \<Rightarrow> jsnum" where
  "js_add NaN y = NaN"
| "js_add x NaN = NaN"
| "js_add PosInf NegInf = NaN"
| "js_add NegInf PosInf = NaN"
| "js_add PosInf y = PosInf"
| "js_add x PosInf = PosInf"
| "js_add NegInf y = NegInf"
| "js_add x NegInf = NegInf"
| "js_add (Fin a) (Fin b) = Fin (a + b)"

definition js_sub :: "jsnum \<Rightarrow> jsnum \<Rightarrow> jsnum" where
  "js_sub x y = js_add x (js_neg y)"

text \<open>The sign of a number that is not \<open>NaN\<close>: \<open>-1\<close>, \<open>0\<close> or \<open>1\<close>.\<close>

fun js_sign :: "jsnum \<Rightarrow> int" where
  "js_sign NaN = 0"
| "js_sign (Fin a) = (if a < 0 then - 1 else if a = 0 then 0 else 1)"
| "js_sign PosInf = 1"
| "js_sign NegInf = - 1"

definition signedInf :: "int \<Rightarrow> jsnum" where
  "signedInf s = (if s = 0 then NaN else if s < 0 then NegInf else PosInf)"

fun js_mul :: "jsnum \<Rightarrow> jsnum \<Rightarrow> jsnum" where
  "js_mul NaN y = NaN"
| "js_mul x NaN = NaN"
| "js_mul (Fin a) (Fin b) = Fin (a * b)"
| "js_mul x y = signedInf (js_sign x * js_sign y)"

fun js_div :: "jsnum \<Rightarrow> jsnum \<Rightarrow> jsnum" where
  "js_div NaN y = NaN"
| "js_div x NaN = NaN"
| "js_div (Fin a) (Fin b) = (if b = 0 then signedInf (js_sign (Fin a)) else Fin (a / b))"
| "js_div (Fin a) y = Fin 0"
| "js_div x (Fin b) = signedInf (js_sign x * (if b < 0 then - 1 else 1))"
| "js_div x y = NaN"

subsection \<open>parseInt\<close>

text \<open>
  \<open>parseInt(s)\<close> with no radix: leading white space is skipped, one sign is read, a
  prefix \<open>0x\<close> or \<open>0X\<close> switches to radix 16, and the longest run of digits of the radix
  is the value; no digit at all is \<open>NaN\<close>. Whatever follows the digits is ignored.
  The value is the exact integer of the digits. The runtime returns the double nearest to
  it: the same number up to \<open>2^53\<close>, a rounded one beyond, and \<open>Infinity\<close> from about
  \<open>1.8e308\<close> on. The page size, the page count and the page of notes returned do not
  depend on the difference: the page size is clamped to 100 either way, and a page that
  large starts beyond every list.
\<close>

definition digitValue :: "char \<Rightarrow> nat option" where
  "digitValue c =
     (let n = (of_char c :: nat)
      in if 48 \<le> n \<and> n \<le> 57 then Some (n - 48)
         else if 97 \<le> n \<and> n \<le> 122 then Some (n - 87)
         else if 65 \<le> n \<and> n \<le> 90 then Some (n - 55)
         else None)"

definition isRadixDigit :: "nat \<Rightarrow> char \<Rightarrow> bool" where
  "isRadixDigit R c = (case digitValue c of None \<Rightarrow> False | Some d \<Rightarrow> d < R)"

definition digitsValue :: "nat \<Rightarrow> string \<Rightarrow> nat" where
  "digitsValue R Z =
     foldl (\<lambda>acc c. acc * R + (case digitValue c of None \<Rightarrow> 0 | Some d \<Rightarrow> d)) 0 Z"

definition parseInt :: "string \<Rightarrow> jsnum" where
  "parseInt inputString =
     (let S = dropWhile isStrWhiteSpaceChar inputString;
          sign = (case S of c # r \<Rightarrow> if c = CHR ''-'' then - 1 else 1 | [] \<Rightarrow> (1::int));
          S1 = (case S of c # r \<Rightarrow> if c = CHR ''+'' \<or> c = CHR ''-'' then r else S | [] \<Rightarrow> S);
          hex = (case S1 of a # b # r \<Rightarrow> a = CHR ''0'' \<and> (b = CHR ''x'' \<or> b = CHR ''X'')
                 | _ \<Rightarrow> False);
          R = (if hex then 16 else 10);
          S2 = (if hex then drop 2 S1 else S1);
          Z = takeWhile (isRadixDigit R) S2
      in if Z = [] then NaN else Fin (of_int (sign * int (digitsValue R Z))))"

subsection \<open>Array.prototype.slice and Array.prototype.sort\<close>

text \<open>
  \<open>xs.slice(start, stop)\<close> first turns each bound into an integer or an infinity
  (\<open>NaN\<close> counts as 0, a fraction is cut towards zero), then into a position between
  0 and the length: a negative bound counts from the end. It returns the elements from
  the first position up to the second, none when the second is not beyond the first;
  it never throws.
\<close>

definition sliceIndex :: "nat \<Rightarrow> jsnum \<Rightarrow> nat" where
  "sliceIndex len x =
     (case x of
        NaN \<Rightarrow> 0
      | PosInf \<Rightarrow> len
      | NegInf \<Rightarrow> 0
      | Fin a \<Rightarrow>
          (let r = (if a < 0 then \<lceil>a\<rceil> else \<lfloor>a\<rfloor>)
           in if r < 0 then nat (max (int len + r) 0) else min (nat r) len))"

definition slice :: "'a list \<Rightarrow> jsnum \<Rightarrow> jsnum \<Rightarrow> 'a list" where
  "slice xs start stop =
     (let len = length xs; k = sliceIndex len start; final = sliceIndex len stop
      in take (final - k) (drop k xs))"

text \<open>
  \<open>xs.sort(cmp)\<close> is a stable sort: \<open>a\<close> stays before \<open>b\<close> unless \<open>cmp(a, b) > 0\<close>.
  For a comparator that is a consistent ordering every stable sort returns the same
  list; it is computed here by insertion, each element entering before the first element
  that it does not follow.
\<close>

fun insertSorted :: "('a \<Rightarrow> 'a \<Rightarrow> int) \<Rightarrow> 'a \<Rightarrow> 'a list \<Rightarrow> 'a list" where
  "insertSorted cmp x [] = [x]"
| "insertSorted cmp x (y # ys) =
     (if cmp x y \<le> 0 then x # y # ys else y # insertSorted cmp x ys)"

definition sortWith :: "('a \<Rightarrow> 'a \<Rightarrow> int) \<Rightarrow> 'a list \<Rightarrow> 'a list" where
  "sortWith cmp xs = foldr (insertSorted cmp) xs []"

section \<open>The notes page\<close>

text \<open>
  \<open>src/app/dashboard/notes/page.tsx\<close>. A note's \<open>updatedAt\<close> is a valid \<open>Date\<close>, held as
  its time value \<open>getTime()\<close> in milliseconds. The request's \<open>searchParams\<close> has five
  optional string fields.
\<close>

record Note =
  id_note :: string
  title :: string
  content :: string
  categoryId :: "string option"
  isPinned :: bool
  isArchived :: bool
  updatedAt :: int

record searchParams =
  sp_q :: "string option"
  sp_category :: "string option"
  sp_page :: "string option"
  sp_pageSize :: "string option"
  sp_includeArchived :: "string option"

text \<open>The mock notes, at the time \<open>now\<close> of the call (\<open>Date.now()\<close>).\<close>

definition getMockNotes :: "int \<Rightarrow> Note list" where
  "getMockNotes now =
     [ \<lparr> id_note = ''1'', title = ''Welcome to Notes'',
         content = ''This is your first note. Start writing and organizing your thoughts!'',
         categoryId = None, isPinned = True, isArchived = False, updatedAt = now \<rparr>,
       \<lparr> id_note = ''2'', title = ''Project Ideas'',
         content = ''Here are some ideas for new projects...'',
         categoryId = Some ''cat-1'', isPinned = False, isArchived = False,
         updatedAt = now - 86400000 \<rparr>,
       \<lparr> id_note = ''3'', title = ''Meeting Notes'',
         content = ''Discussed the new features and timeline...'',
         categoryId = Some ''cat-2'', isPinned = False, isArchived = False,
         updatedAt = now - 172800000 \<rparr> ]"

text \<open>
  The callback of \<open>allNotes.filter\<close>, with the three constants it closes over. The
  page's constant \<open>categoryId\<close> is written \<open>catId\<close>, the name being the note's field.
\<close>

definition noteFilter :: "bool \<Rightarrow> string option \<Rightarrow> string \<Rightarrow> Note \<Rightarrow> bool" where
  "noteFilter includeArchived catId searchQuery note =
     (if \<not> includeArchived \<and> isArchived note then False
      else if truthy catId \<and> categoryId note \<noteq> catId then False
      else if length searchQuery \<ge> 2 then
        (let query = toLowerCase searchQuery
         in includes_str (toLowerCase (title note)) query
            \<or> includes_str (toLowerCase (content note)) query)
      else True)"

text \<open>The comparator of \<open>filteredNotes.sort\<close>.\<close>

definition noteCompare :: "Note \<Rightarrow> Note \<Rightarrow> int" where
  "noteCompare a b =
     (if isPinned a \<and> \<not> isPinned b then - 1
      else if \<not> isPinned a \<and> isPinned b then 1
      else updatedAt b - updatedAt a)"

text \<open>
  What \<open>NotesPage\<close> computes before it renders: the constants of its body, in the
  order of the source, returned in a record whose field \<open>v_x\<close> holds the constant
  \<open>x\<close>. \<open>allNotes\<close> is the list the data function returns (the mock list today).
\<close>

record NotesView =
  v_page :: jsnum
  v_pageSize :: jsnum
  v_filteredNotes :: "Note list"
  v_total :: nat
  v_pageCount :: jsnum
  v_startIndex :: jsnum
  v_paginatedNotes :: "Note list"

definition NotesPage :: "Note list \<Rightarrow> searchParams \<Rightarrow> NotesView" where
  "NotesPage allNotes params =
     (let searchQuery = orDefault (sp_q params) [];
          catId = orNull (sp_category params);
          page = Math_max (parseInt (orDefault (sp_page params) ''1'')) (Fin 1);
          pageSize =
            Math_min (Math_max (parseInt (orDefault (sp_pageSize params) ''20'')) (Fin 5))
              (Fin 100);
          includeArchived = (sp_includeArchived params = Some ''true'');
          filteredNotes =
            sortWith noteCompare (filter (noteFilter includeArchived catId searchQuery) allNotes);
          total = length filteredNotes;
          pageCount = Math_max (Math_ceil (js_div (Fin (of_nat total)) pageSize)) (Fin 1);
          startIndex = js_mul (js_sub page (Fin 1)) pageSize;
          paginatedNotes = slice filteredNotes startIndex (js_add startIndex pageSize)
      in \<lparr> v_page = page, v_pageSize = pageSize, v_filteredNotes = filteredNotes,
           v_total = total, v_pageCount = pageCount, v_startIndex = startIndex,
           v_paginatedNotes = paginatedNotes \<rparr>)"

section \<open>The toolbar\<close>


definition updateURL :: "string \<Rightarrow> string option \<Rightarrow> bool \<Rightarrow> searchParams \<Rightarrow> searchParams" where
  "updateURL search category includeArchived params =
     params
       \<lparr> sp_q := (if length (trim search) \<ge> 2 then Some (trim search) else None),
         sp_category := (if truthy category then category else None),
         sp_includeArchived := (if includeArchived then Some ''true'' else None),
         sp_page := Some ''1'' \<rparr>"

section \<open>Category colours\<close>

text \<open>
  \<open>getCategoryColor\<close> (toolbar and note card, the same text) reads a property of an
  object literal by a computed key. Reading a property of an ordinary object looks at the
  object's own properties first and then at those of \<open>Object.prototype\<close>, which every
  object literal inherits: its methods, \<open>constructor\<close>, and the accessor \<open>__proto__\<close>.
  A value is \<open>undefined\<close>, a string, or one of these built-in objects.
\<close>

datatype jsval = Undefined | Str string | Builtin string

definition Object_prototype :: "(string \<times> jsval) list" where
  "Object_prototype =
     [ (''constructor'', Builtin ''Object''),
       (''__defineGetter__'', Builtin ''Object.prototype.__defineGetter__''),
       (''__defineSetter__'', Builtin ''Object.prototype.__defineSetter__''),
       (''hasOwnProperty'', Builtin ''Object.prototype.hasOwnProperty''),
       (''__lookupGetter__'', Builtin ''Object.prototype.__lookupGetter__''),
       (''__lookupSetter__'', Builtin ''Object.prototype.__lookupSetter__''),
       (''isPrototypeOf'', Builtin ''Object.prototype.isPrototypeOf''),
       (''propertyIsEnumerable'', Builtin ''Object.prototype.propertyIsEnumerable''),
       (''toString'', Builtin ''Object.prototype.toString''),
       (''valueOf'', Builtin ''Object.prototype.valueOf''),
       (''__proto__'', Builtin ''Object.prototype''),
       (''toLocaleString'', Builtin ''Object.prototype.toLocaleString'') ]"

definition getProperty :: "(string \<times> string) list \<Rightarrow> string \<Rightarrow> jsval" where
  "getProperty obj key =
     (case map_of obj key of
        Some v \<Rightarrow> Str v
      | None \<Rightarrow> (case map_of Object_prototype key of Some v \<Rightarrow> v | None \<Rightarrow> Undefined))"

fun toBoolean :: "jsval \<Rightarrow> bool" where
  "toBoolean Undefined = False"
| "toBoolean (Str s) = (s \<noteq> [])"
| "toBoolean (Builtin b) = True"

definition colorMap :: "(string \<times> string) list" where
  "colorMap =
     [ (''blue'', ''#3b82f6''), (''green'', ''#10b981''), (''purple'', ''#8b5cf6''),
       (''red'', ''#ef4444''), (''yellow'', ''#eab308''), (''orange'', ''#f97316''),
       (''pink'', ''#ec4899''), (''indigo'', ''#6366f1''), (''slate'', ''#64748b''),
       (''gray'', ''#6b7280'') ]"

definition getCategoryColor :: "string \<Rightarrow> jsval" where
  "getCategoryColor colorName =
     (let v = getProperty colorMap colorName
      in if toBoolean v then v else getProperty colorMap ''slate'')"

section \<open>Pagination\<close>

text \<open>
  \<open>getPageNumbers\<close> of the pagination component (\<open>src/unnamed/part_001\<close>), a closure
  over the component's \<open>currentPage\<close> and \<open>pageCount\<close>. The page renders the component
  with integers. Each of its two \<open>for\<close> loops is a recursive function of the loop
  variable, the bound and the list built so far.
\<close>

datatype pageItem = PageNum int | Ellipsis

function pushAll :: "int \<Rightarrow> int \<Rightarrow> pageItem list \<Rightarrow> pageItem list" where
  "pushAll i pageCount pages =
     (if i \<le> pageCount then pushAll (i + 1) pageCount (pages @ [PageNum i]) else pages)"
  by pat_completeness auto
termination
  by (relation "measure (\<lambda>(i, pageCount, pages). nat (pageCount + 1 - i))") auto

function pushAround :: "int \<Rightarrow> int \<Rightarrow> int \<Rightarrow> pageItem list \<Rightarrow> pageItem list" where
  "pushAround i stop pageCount pages =
     (if i \<le> stop
      then pushAround (i + 1) stop pageCount
             (if i \<noteq> 1 \<and> i \<noteq> pageCount then pages @ [PageNum i] else pages)
      else pages)"
  by pat_completeness auto
termination
  by (relation "measure (\<lambda>(i, stop, pageCount, pages). nat (stop + 1 - i))") auto

definition getPageNumbers :: "int \<Rightarrow> int \<Rightarrow> pageItem list" where
  "getPageNumbers currentPage pageCount =
     (let maxVisible = 5
      in if pageCount \<le> maxVisible then pushAll 1 pageCount []
         else
           (let pages1 = [PageNum 1];
                pages2 = (if currentPage > 3 then pages1 @ [Ellipsis] else pages1);
                start = max 2 (currentPage - 1);
                stop = min (pageCount - 1) (currentPage + 1);
                pages3 = pushAround start stop pageCount pages2;
                pages4 = (if currentPage < pageCount - 2 then pages3 @ [Ellipsis] else pages3)
            in if pageCount > 1 then pages4 @ [PageNum pageCount] else pages4))"

section \<open>Vocabulary of the properties\<close>

text \<open>The numeric entries of a list of page items, in order.\<close>

fun numericEntries :: "pageItem list \<Rightarrow> int list" where
  "numericEntries [] = []"
| "numericEntries (PageNum n # ps) = n # numericEntries ps"
| "numericEntries (Ellipsis # ps) = numericEntries ps"

subsection \<open>Sample inputs\<close>

text \<open>
  A request with no query string, and seven notes: two pinned ones that are older than
  most of the rest, one archived, and three that mention eggs in different cases.
\<close>

definition noParams :: searchParams where
  "noParams = \<lparr> sp_q = None, sp_category = None, sp_page = None, sp_pageSize = None,
                sp_includeArchived = None \<rparr>"

definition mkNote ::
  "string \<Rightarrow> string \<Rightarrow> string \<Rightarrow> string option \<Rightarrow> bool \<Rightarrow> bool \<Rightarrow> int \<Rightarrow> Note" where
  "mkNote i t c cat pinned archived time =
     \<lparr> id_note = i, title = t, content = c, categoryId = cat, isPinned = pinned,
       isArchived = archived, updatedAt = time \<rparr>"

definition exampleNotes :: "Note list" where
  "exampleNotes =
     [ mkNote ''a'' ''Groceries'' ''Milk and EGGS'' (Some ''cat-1'') False False 500,
       mkNote ''b'' ''Old pinned'' ''remember the milk'' None True False 100,
       mkNote ''c'' ''Archive me'' ''done'' (Some ''cat-2'') False True 400,
       mkNote ''d'' ''Pinned plan'' ''Eggs benedict'' (Some ''cat-1'') True False 300,
       mkNote ''e'' ''Taxes'' ''due in April'' (Some ''cat-2'') False False 450,
       mkNote ''f'' ''Reading list'' ''eggshell skull rule'' None False False 50,
       mkNote ''g'' ''Trip'' ''pack bags'' (Some ''cat-1'') False False 600 ]"

declare pushAll.simps [simp del] pushAround.simps [simp del]

section \<open>Facts about the runtime functions\<close>

lemma parseInt_plain_examples:
  "parseInt ''20'' = Fin 20 \<and> parseInt ''1'' = Fin 1 \<and> parseInt ''-5'' = Fin (- 5)
   \<and> parseInt ''0x1f'' = Fin 31 \<and> parseInt '' 12px'' = Fin 12 \<and> parseInt ''abc'' = NaN"
  by code_simp

lemma parseInt_shape: "parseInt s = NaN \<or> (\<exists>n::int. parseInt s = Fin (of_int n))"
  unfolding parseInt_def Let_def by (rule if_split [THEN iffD2]) blast

lemma length_trim_le: "length (trim s) \<le> length s"
proof -
  have "length (dropWhile isStrWhiteSpaceChar (rev (dropWhile isStrWhiteSpaceChar s)))
          \<le> length (rev (dropWhile isStrWhiteSpaceChar s))"
    by (rule length_dropWhile_le)
  also have "\<dots> = length (dropWhile isStrWhiteSpaceChar s)" by simp
  also have "\<dots> \<le> length s" by (rule length_dropWhile_le)
  finally show ?thesis by (simp add: trim_def)
qed

lemma truthy_orNull: "truthy (orNull x) \<longleftrightarrow> orNull x \<noteq> None"
  by (auto simp: truthy_def orNull_def split: option.splits)

subsection \<open>includes\<close>

lemma take_length_eq_iff: "take (length t) s = t \<longleftrightarrow> (\<exists>ss. s = t @ ss)"
proof
  assume "take (length t) s = t"
  then have "s = t @ drop (length t) s" by (metis append_take_drop_id)
  then show "\<exists>ss. s = t @ ss" ..
next
  assume "\<exists>ss. s = t @ ss"
  then show "take (length t) s = t" by auto
qed

lemma includes_str_iff: "includes_str s t \<longleftrightarrow> (\<exists>ps ss. s = ps @ t @ ss)"
proof (induction s)
  case Nil
  show ?case by auto
next
  case (Cons c s)
  have "(\<exists>ps ss. c # s = ps @ t @ ss) \<longleftrightarrow>
        (\<exists>ss. c # s = t @ ss) \<or> (\<exists>ps ss. s = ps @ t @ ss)"
  proof
    assume "\<exists>ps ss. c # s = ps @ t @ ss"
    then obtain ps ss where e: "c # s = ps @ t @ ss" by blast
    show "(\<exists>ss. c # s = t @ ss) \<or> (\<exists>ps ss. s = ps @ t @ ss)"
    proof (cases ps)
      case Nil
      with e show ?thesis by auto
    next
      case (Cons p ps')
      with e have "s = ps' @ t @ ss" by simp
      then show ?thesis by blast
    qed
  next
    assume "(\<exists>ss. c # s = t @ ss) \<or> (\<exists>ps ss. s = ps @ t @ ss)"
    then show "\<exists>ps ss. c # s = ps @ t @ ss"
    proof
      assume "\<exists>ss. c # s = t @ ss"
      then obtain ss where "c # s = [] @ t @ ss" by auto
      then show ?thesis by blast
    next
      assume "\<exists>ps ss. s = ps @ t @ ss"
      then obtain ps ss where "c # s = (c # ps) @ t @ ss" by auto
      then show ?thesis by blast
    qed
  qed
  with Cons show ?case by (simp only: includes_str.simps take_length_eq_iff)
qed

subsection \<open>sort and slice\<close>

lemma set_insertSorted: "set (insertSorted cmp x ys) = insert x (set ys)"
  by (induction ys) auto

lemma set_sortWith: "set (sortWith cmp xs) = set xs"
  by (induction xs) (simp_all add: sortWith_def set_insertSorted)

lemma length_insertSorted: "length (insertSorted cmp x ys) = Suc (length ys)"
  by (induction ys) auto

lemma length_sortWith: "length (sortWith cmp xs) = length xs"
  by (induction xs) (simp_all add: sortWith_def length_insertSorted)

lemma sorted_insertSorted:
  assumes total: "\<And>a b. cmp a b \<le> 0 \<or> cmp b a \<le> 0"
    and trans: "\<And>a b c. cmp a b \<le> 0 \<Longrightarrow> cmp b c \<le> 0 \<Longrightarrow> cmp a c \<le> 0"
    and sorted: "sorted_wrt (\<lambda>a b. cmp a b \<le> 0) ys"
  shows "sorted_wrt (\<lambda>a b. cmp a b \<le> 0) (insertSorted cmp x ys)"
  using sorted
proof (induction ys)
  case Nil
  then show ?case by simp
next
  case (Cons y ys)
  show ?case
  proof (cases "cmp x y \<le> 0")
    case True
    have "\<forall>z\<in>set ys. cmp x z \<le> 0"
      using Cons.prems True trans by auto
    with True Cons.prems show ?thesis by simp
  next
    case False
    with total [of x y] have yx: "cmp y x \<le> 0" by simp
    from Cons have "sorted_wrt (\<lambda>a b. cmp a b \<le> 0) (insertSorted cmp x ys)" by simp
    with False yx Cons.prems show ?thesis by (simp add: set_insertSorted)
  qed
qed

lemma sorted_sortWith:
  assumes "\<And>a b. cmp a b \<le> 0 \<or> cmp b a \<le> 0"
    and "\<And>a b c. cmp a b \<le> 0 \<Longrightarrow> cmp b c \<le> 0 \<Longrightarrow> cmp a c \<le> 0"
  shows "sorted_wrt (\<lambda>a b. cmp a b \<le> 0) (sortWith cmp xs)"
proof (induction xs)
  case Nil
  show ?case by (simp add: sortWith_def)
next
  case (Cons x xs)
  have "sortWith cmp (x # xs) = insertSorted cmp x (sortWith cmp xs)"
    by (simp add: sortWith_def)
  with Cons assms show ?case by (simp add: sorted_insertSorted)
qed

lemma slice_eq:
  "slice xs a b =
     take (sliceIndex (length xs) b - sliceIndex (length xs) a) (drop (sliceIndex (length xs) a) xs)"
  by (simp add: slice_def Let_def)

lemma sorted_wrt_slice: "sorted_wrt P xs \<Longrightarrow> sorted_wrt P (slice xs a b)"
  unfolding slice_eq by (intro sorted_wrt_take sorted_wrt_drop)

lemma set_slice: "set (slice xs a b) \<subseteq> set xs"
  unfolding slice_eq by (meson set_take_subset set_drop_subset subset_trans)

lemma sliceIndex_beyond:
  assumes "of_nat len \<le> a"
  shows "sliceIndex len (Fin a) = len"
proof -
  have "(0::rat) \<le> of_nat len" by simp
  with assms have a0: "\<not> a < 0" by linarith
  have le: "int len \<le> \<lfloor>a\<rfloor>" using assms by (simp add: le_floor_iff)
  then have "min (nat \<lfloor>a\<rfloor>) len = len" by linarith
  moreover from le have "\<not> \<lfloor>a\<rfloor> < 0" by linarith
  ultimately show ?thesis using a0 by (simp add: sliceIndex_def Let_def)
qed

section \<open>Facts about the notes page\<close>

lemma NotesPage_page:
  "v_page (NotesPage allNotes params)
     = Math_max (parseInt (orDefault (sp_page params) ''1'')) (Fin 1)"
  by (simp add: NotesPage_def Let_def)

lemma NotesPage_pageSize:
  "v_pageSize (NotesPage allNotes params)
     = Math_min (Math_max (parseInt (orDefault (sp_pageSize params) ''20'')) (Fin 5)) (Fin 100)"
  by (simp add: NotesPage_def Let_def)

lemma NotesPage_filteredNotes:
  "v_filteredNotes (NotesPage allNotes params) =
     sortWith noteCompare
       (filter (noteFilter (sp_includeArchived params = Some ''true'')
          (orNull (sp_category params)) (orDefault (sp_q params) [])) allNotes)"
  by (simp add: NotesPage_def Let_def)

lemma NotesPage_total:
  "v_total (NotesPage allNotes params) = length (v_filteredNotes (NotesPage allNotes params))"
  by (simp add: NotesPage_def Let_def)

lemma NotesPage_pageCount:
  "v_pageCount (NotesPage allNotes params) =
     Math_max (Math_ceil (js_div (Fin (of_nat (v_total (NotesPage allNotes params))))
       (v_pageSize (NotesPage allNotes params)))) (Fin 1)"
  by (simp add: NotesPage_def Let_def)

lemma NotesPage_startIndex:
  "v_startIndex (NotesPage allNotes params) =
     js_mul (js_sub (v_page (NotesPage allNotes params)) (Fin 1))
       (v_pageSize (NotesPage allNotes params))"
  by (simp add: NotesPage_def Let_def)

lemma NotesPage_paginatedNotes:
  "v_paginatedNotes (NotesPage allNotes params) =
     slice (v_filteredNotes (NotesPage allNotes params))
       (v_startIndex (NotesPage allNotes params))
       (js_add (v_startIndex (NotesPage allNotes params))
          (v_pageSize (NotesPage allNotes params)))"
  by (simp add: NotesPage_def Let_def)

subsection \<open>Page and page size\<close>

text \<open>
  When \<open>parseInt\<close> reads a number, the page is an integer from 1 on and the page size an
  integer between 5 and 100; a missing or empty parameter gives 1 and 20. The one other
  outcome is \<open>NaN\<close>: \<open>Math.max\<close> and \<open>Math.min\<close> return \<open>NaN\<close> as soon as an argument is.
\<close>

lemma page_shape:
  "v_page (NotesPage allNotes params) = NaN \<or>
   (\<exists>n::int. 1 \<le> n \<and> v_page (NotesPage allNotes params) = Fin (of_int n))"
proof -
  from parseInt_shape [of "orDefault (sp_page params) ''1''"]
  show ?thesis
  proof
    assume "parseInt (orDefault (sp_page params) ''1'') = NaN"
    then show ?thesis by (simp add: NotesPage_page)
  next
    assume "\<exists>n::int. parseInt (orDefault (sp_page params) ''1'') = Fin (of_int n)"
    then obtain n :: int where n: "parseInt (orDefault (sp_page params) ''1'') = Fin (of_int n)" ..
    have "Math_max (Fin (of_int n)) (Fin 1) = Fin (of_int (max n 1))"
      by (simp add: max_def)
    with n show ?thesis by (auto simp: NotesPage_page)
  qed
qed

lemma pageSize_shape:
  "v_pageSize (NotesPage allNotes params) = NaN \<or>
   (\<exists>n::int. 5 \<le> n \<and> n \<le> 100 \<and> v_pageSize (NotesPage allNotes params) = Fin (of_int n))"
proof -
  from parseInt_shape [of "orDefault (sp_pageSize params) ''20''"]
  show ?thesis
  proof
    assume "parseInt (orDefault (sp_pageSize params) ''20'') = NaN"
    then show ?thesis by (simp add: NotesPage_pageSize)
  next
    assume "\<exists>n::int. parseInt (orDefault (sp_pageSize params) ''20'') = Fin (of_int n)"
    then obtain n :: int
      where n: "parseInt (orDefault (sp_pageSize params) ''20'') = Fin (of_int n)" ..
    have "Math_min (Math_max (Fin (of_int n)) (Fin 5)) (Fin 100)
            = Fin (of_int (min (max n 5) 100))"
      by (simp add: max_def min_def)
    with n show ?thesis by (auto simp: NotesPage_pageSize)
  qed
qed

lemma page_Fin:
  assumes "v_page (NotesPage allNotes params) = Fin p"
  shows "\<exists>n::int. 1 \<le> n \<and> p = of_int n"
  using page_shape [of allNotes params] assms by auto

lemma pageSize_Fin:
  assumes "v_pageSize (NotesPage allNotes params) = Fin s"
  shows "\<exists>n::int. 5 \<le> n \<and> n \<le> 100 \<and> s = of_int n"
  using pageSize_shape [of allNotes params] assms by auto

lemma page_missing:
  assumes "sp_page params = None \<or> sp_page params = Some []"
  shows "v_page (NotesPage allNotes params) = Fin 1"
proof -
  from assms have "orDefault (sp_page params) ''1'' = ''1''" by (auto simp: orDefault_def)
  then show ?thesis using parseInt_plain_examples by (simp add: NotesPage_page)
qed

lemma pageSize_missing:
  assumes "sp_pageSize params = None \<or> sp_pageSize params = Some []"
  shows "v_pageSize (NotesPage allNotes params) = Fin 20"
proof -
  from assms have "orDefault (sp_pageSize params) ''20'' = ''20''" by (auto simp: orDefault_def)
  then show ?thesis using parseInt_plain_examples by (simp add: NotesPage_pageSize)
qed

subsection \<open>Filtering and ordering\<close>

lemma filteredNotes_set:
  "set (v_filteredNotes (NotesPage allNotes params)) =
     {n \<in> set allNotes. noteFilter (sp_includeArchived params = Some ''true'')
          (orNull (sp_category params)) (orDefault (sp_q params) []) n}"
  by (simp add: NotesPage_filteredNotes set_sortWith)

text \<open>The total is the number of notes that pass the filter.\<close>

lemma total_counts_matches:
  "v_total (NotesPage allNotes params) =
     length (filter (noteFilter (sp_includeArchived params = Some ''true'')
          (orNull (sp_category params)) (orDefault (sp_q params) [])) allNotes)"
  by (simp add: NotesPage_total NotesPage_filteredNotes length_sortWith)

lemma paginated_subset_filtered:
  "set (v_paginatedNotes (NotesPage allNotes params))
     \<subseteq> set (v_filteredNotes (NotesPage allNotes params))"
  unfolding NotesPage_paginatedNotes by (rule set_slice)

text \<open>The comparator is a consistent ordering: any two notes compare, transitively.\<close>

lemma noteCompare_total: "noteCompare a b \<le> 0 \<or> noteCompare b a \<le> 0"
  by (auto simp: noteCompare_def)

lemma noteCompare_trans:
  "noteCompare a b \<le> 0 \<Longrightarrow> noteCompare b c \<le> 0 \<Longrightarrow> noteCompare a c \<le> 0"
  by (auto simp: noteCompare_def split: if_splits)

lemma noteCompare_le_iff:
  "noteCompare a b \<le> 0 \<longleftrightarrow>
     (isPinned a \<and> \<not> isPinned b) \<or> (isPinned a = isPinned b \<and> updatedAt b \<le> updatedAt a)"
  by (auto simp: noteCompare_def)

lemma sorted_filteredNotes:
  "sorted_wrt (\<lambda>a b. noteCompare a b \<le> 0) (v_filteredNotes (NotesPage allNotes params))"
  unfolding NotesPage_filteredNotes
  by (rule sorted_sortWith) (rule noteCompare_total, erule noteCompare_trans)

lemma sorted_paginatedNotes:
  "sorted_wrt (\<lambda>a b. noteCompare a b \<le> 0) (v_paginatedNotes (NotesPage allNotes params))"
  unfolding NotesPage_paginatedNotes by (rule sorted_wrt_slice) (rule sorted_filteredNotes)

lemma example_listing:
  "map id_note (v_filteredNotes (NotesPage exampleNotes noParams))
     = [''d'', ''b'', ''g'', ''a'', ''e'', ''f'']
   \<and> map id_note (v_paginatedNotes (NotesPage exampleNotes (noParams\<lparr>sp_pageSize := Some ''5''\<rparr>)))
     = [''d'', ''b'', ''g'', ''a'', ''e'']
   \<and> map id_note (v_paginatedNotes
        (NotesPage exampleNotes (noParams\<lparr>sp_pageSize := Some ''5'', sp_page := Some ''2''\<rparr>)))
     = [''f'']"
  by code_simp

subsection \<open>What the pagination component receives\<close>

text \<open>
  The page renders the pagination component only under a non-empty page of notes. Then
  both the page and the page count are integers and the page is between 1 and the page
  count: \<open>currentPage\<close> and \<open>pageCount\<close> of the component are integers in that range.
\<close>

lemma startIndex_NaN_empty:
  assumes "v_startIndex (NotesPage allNotes params) = NaN"
  shows "v_paginatedNotes (NotesPage allNotes params) = []"
  using assms by (simp add: NotesPage_paginatedNotes slice_eq sliceIndex_def)

lemma rendered_page_in_range:
  assumes "v_paginatedNotes (NotesPage allNotes params) \<noteq> []"
  shows "\<exists>p c::int. v_page (NotesPage allNotes params) = Fin (of_int p)
           \<and> v_pageCount (NotesPage allNotes params) = Fin (of_int c) \<and> 1 \<le> p \<and> p \<le> c"
proof -
  let ?r = "NotesPage allNotes params"
  have "v_page ?r \<noteq> NaN"
  proof
    assume "v_page ?r = NaN"
    then have "v_startIndex ?r = NaN" by (simp add: NotesPage_startIndex js_sub_def)
    with assms show False by (simp add: startIndex_NaN_empty)
  qed
  with page_shape [of allNotes params]
  obtain p :: int where p: "1 \<le> p" "v_page ?r = Fin (of_int p)" by blast
  have "v_pageSize ?r \<noteq> NaN"
  proof
    assume "v_pageSize ?r = NaN"
    then have "v_startIndex ?r = NaN" by (simp add: NotesPage_startIndex p js_sub_def)
    with assms show False by (simp add: startIndex_NaN_empty)
  qed
  with pageSize_shape [of allNotes params]
  obtain n :: int where n: "5 \<le> n" "v_pageSize ?r = Fin (of_int n)" by blast
  let ?t = "of_nat (v_total ?r) :: rat"
  have si: "v_startIndex ?r = Fin ((of_int p - 1) * of_int n)"
    by (simp add: NotesPage_startIndex p n js_sub_def)
  have lt: "(of_int p - 1) * of_int n < ?t"
  proof (rule ccontr)
    assume "\<not> (of_int p - 1) * of_int n < ?t"
    then have "of_nat (length (v_filteredNotes ?r)) \<le> (of_int p - 1) * (of_int n :: rat)"
      by (simp add: NotesPage_total)
    then have "sliceIndex (length (v_filteredNotes ?r)) (Fin ((of_int p - 1) * of_int n))
                 = length (v_filteredNotes ?r)"
      by (rule sliceIndex_beyond)
    with assms show False by (simp add: NotesPage_paginatedNotes slice_eq si)
  qed
  have n0: "(0::rat) < of_int n" using n(1) by simp
  from lt n0 have "of_int p - 1 < ?t / of_int n" by (simp add: pos_less_divide_eq)
  also have "\<dots> \<le> of_int \<lceil>?t / of_int n\<rceil>" by (rule le_of_int_ceiling)
  finally have "of_int (p - 1) < (of_int \<lceil>?t / of_int n\<rceil> :: rat)" by simp
  then have "p - 1 < \<lceil>?t / of_int n\<rceil>" by (simp only: of_int_less_iff)
  then have pc: "p \<le> max \<lceil>?t / of_int n\<rceil> 1" by simp
  have "n \<noteq> 0" using n(1) by simp
  then have "v_pageCount ?r = Fin (max (of_int \<lceil>?t / of_int n\<rceil>) 1)"
    by (simp add: NotesPage_pageCount n)
  also have "max (of_int \<lceil>?t / of_int n\<rceil>) (1::rat) = of_int (max \<lceil>?t / of_int n\<rceil> 1)"
    by (simp add: max_def)
  finally have "v_pageCount ?r = Fin (of_int (max \<lceil>?t / of_int n\<rceil> 1))" .
  with p pc show ?thesis by blast
qed

subsection \<open>The search query and the category\<close>

lemma noteFilter_short_query:
  "length q < 2 \<Longrightarrow> noteFilter inc cat q = noteFilter inc cat []"
  by (rule ext) (simp add: noteFilter_def)

text \<open>A query of fewer than two characters, as received, is no query.\<close>

lemma short_query_is_no_query:
  assumes "length q < 2"
  shows "NotesPage allNotes (params\<lparr>sp_q := Some q\<rparr>)
           = NotesPage allNotes (params\<lparr>sp_q := None\<rparr>)"
proof -
  have "noteFilter inc cat (orDefault (Some q) []) = noteFilter inc cat (orDefault None [])"
    for inc cat
    using noteFilter_short_query [OF assms, of inc cat] by (simp add: orDefault_def)
  then show ?thesis by (simp add: NotesPage_def)
qed

text \<open>The toolbar only ever sends a trimmed query of two characters or more, or none.\<close>

lemma updateURL_query:
  "sp_q (updateURL search category includeArchived params) = None
   \<or> (\<exists>q. sp_q (updateURL search category includeArchived params) = Some q
          \<and> q = trim search \<and> 2 \<le> length q)"
  by (simp add: updateURL_def)

text \<open>
  With a query of two characters or more, as received, a note is listed exactly when it
  passes the archive and category filters and its lowered title or content includes the
  lowered query. The query is used as it arrives, surrounding white space included.
\<close>

lemma filteredNotes_search_iff:
  assumes "sp_q params = Some q" and "2 \<le> length q"
  shows "n \<in> set (v_filteredNotes (NotesPage allNotes params)) \<longleftrightarrow>
           n \<in> set allNotes
         \<and> (isArchived n \<longrightarrow> sp_includeArchived params = Some ''true'')
         \<and> (\<forall>c. orNull (sp_category params) = Some c \<longrightarrow> categoryId n = Some c)
         \<and> (includes_str (toLowerCase (title n)) (toLowerCase q)
              \<or> includes_str (toLowerCase (content n)) (toLowerCase q))"
proof -
  from assms(2) have "q \<noteq> []" by auto
  with assms(1) have sq: "orDefault (sp_q params) [] = q" by (simp add: orDefault_def)
  have "noteFilter (sp_includeArchived params = Some ''true'') (orNull (sp_category params)) q n
        \<longleftrightarrow>
          (isArchived n \<longrightarrow> sp_includeArchived params = Some ''true'')
        \<and> (\<forall>c. orNull (sp_category params) = Some c \<longrightarrow> categoryId n = Some c)
        \<and> (includes_str (toLowerCase (title n)) (toLowerCase q)
              \<or> includes_str (toLowerCase (content n)) (toLowerCase q))"
    using assms(2) by (auto simp: noteFilter_def Let_def truthy_orNull)
  then show ?thesis by (simp add: filteredNotes_set sq)
qed


section \<open>Facts about the category colours\<close>

text \<open>
  A palette key gives its colour, a name that is neither a palette key nor a property of
  \<open>Object.prototype\<close> gives slate, and a property name of \<open>Object.prototype\<close> gives the
  inherited built-in, which is truthy and so never replaced by the fallback.
\<close>

lemma getCategoryColor_palette:
  assumes "map_of colorMap k = Some v"
  shows "getCategoryColor k = Str v"
proof -
  from assms have "(k, v) \<in> set colorMap" by (rule map_of_SomeD)
  then have "v \<noteq> []" by (auto simp: colorMap_def)
  with assms show ?thesis by (simp add: getCategoryColor_def getProperty_def)
qed

lemma getCategoryColor_fallback:
  assumes "map_of colorMap k = None" and "map_of Object_prototype k = None"
  shows "getCategoryColor k = Str ''#64748b''"
proof -
  have "getProperty colorMap ''slate'' = Str ''#64748b''"
    by (simp add: getProperty_def colorMap_def)
  with assms show ?thesis by (simp add: getCategoryColor_def getProperty_def)
qed

lemma getCategoryColor_inherited:
  assumes "map_of colorMap k = None" and "map_of Object_prototype k = Some v"
  shows "getCategoryColor k = v"
proof -
  from assms(2) have "(k, v) \<in> set Object_prototype" by (rule map_of_SomeD)
  then have "toBoolean v" by (auto simp: Object_prototype_def)
  with assms show ?thesis by (simp add: getCategoryColor_def getProperty_def)
qed

lemma getCategoryColor_examples:
  "getCategoryColor ''blue'' = Str ''#3b82f6'' \<and> getCategoryColor ''gray'' = Str ''#6b7280''
   \<and> getCategoryColor ''teal'' = Str ''#64748b'' \<and> getCategoryColor [] = Str ''#64748b''"
  by code_simp

section \<open>Facts about the page numbers\<close>

text \<open>Each loop appends the numbers of its range, the second one those it does not skip.\<close>

lemma pushAll_eq: "pushAll i n acc = acc @ map PageNum [i..n]"
proof (induction i n acc rule: pushAll.induct)
  case (1 i pageCount pages)
  show ?case
  proof (cases "i \<le> pageCount")
    case True
    with 1 have "pushAll i pageCount pages
                   = (pages @ [PageNum i]) @ map PageNum [i + 1..pageCount]"
      by (subst pushAll.simps) simp
    with True show ?thesis by (simp add: upto_rec1)
  next
    case False
    then show ?thesis by (subst pushAll.simps) simp
  qed
qed

lemma pushAround_eq:
  "pushAround i e pc acc = acc @ map PageNum (filter (\<lambda>k. k \<noteq> 1 \<and> k \<noteq> pc) [i..e])"
proof (induction i e pc acc rule: pushAround.induct)
  case (1 i stop pageCount pages)
  show ?case
  proof (cases "i \<le> stop")
    case True
    with 1 have "pushAround i stop pageCount pages =
        (if i \<noteq> 1 \<and> i \<noteq> pageCount then pages @ [PageNum i] else pages)
          @ map PageNum (filter (\<lambda>k. k \<noteq> 1 \<and> k \<noteq> pageCount) [i + 1..stop])"
      by (subst pushAround.simps) simp
    with True show ?thesis by (simp add: upto_rec1)
  next
    case False
    then show ?thesis by (subst pushAround.simps) simp
  qed
qed

lemma numericEntries_append:
  "numericEntries (xs @ ys) = numericEntries xs @ numericEntries ys"
  by (induction xs rule: numericEntries.induct) auto

lemma numericEntries_PageNum: "numericEntries (map PageNum ns) = ns"
  by (induction ns) auto

lemma getPageNumbers_small:
  "pageCount \<le> 5 \<Longrightarrow> getPageNumbers currentPage pageCount = map PageNum [1..pageCount]"
  by (simp add: getPageNumbers_def pushAll_eq)

lemma getPageNumbers_large:
  assumes "5 < pageCount" "1 \<le> currentPage" "currentPage \<le> pageCount"
  shows "getPageNumbers currentPage pageCount =
     PageNum 1 # ((if currentPage > 3 then [Ellipsis] else [])
       @ map PageNum [max 2 (currentPage - 1)..min (pageCount - 1) (currentPage + 1)]
       @ (if currentPage < pageCount - 2 then [Ellipsis] else [])) @ [PageNum pageCount]"
proof -
  have "filter (\<lambda>k. k \<noteq> 1 \<and> k \<noteq> pageCount)
          [max 2 (currentPage - 1)..min (pageCount - 1) (currentPage + 1)]
      = [max 2 (currentPage - 1)..min (pageCount - 1) (currentPage + 1)]"
    by (rule filter_True) auto
  with assms show ?thesis
    by (simp add: getPageNumbers_def Let_def pushAround_eq)
qed

lemma getPageNumbers_examples:
  "getPageNumbers 1 1 = [PageNum 1]
   \<and> getPageNumbers 3 5 = [PageNum 1, PageNum 2, PageNum 3, PageNum 4, PageNum 5]
   \<and> getPageNumbers 1 6 = [PageNum 1, PageNum 2, Ellipsis, PageNum 6]
   \<and> getPageNumbers 5 10
       = [PageNum 1, Ellipsis, PageNum 4, PageNum 5, PageNum 6, Ellipsis, PageNum 10]"
  by code_simp

section \<open>The claims\<close>

subsection \<open>C1\<close>

text \<open>
  Claim C1. In every listing result pinned notes come before unpinned notes whatever
  their recency, and within the pinned notes and within the unpinned notes the order is by
  \<open>updatedAt\<close>, latest first: of any two positions \<open>i < j\<close> of the page that is
  returned (and of the whole sorted list it is cut from), if the later note is pinned so
  is the earlier one, and if both have the same pin flag the earlier one was updated no
  earlier than the later one.
\<close>

theorem listing_order:
  assumes "items = v_paginatedNotes (NotesPage allNotes params)
             \<or> items = v_filteredNotes (NotesPage allNotes params)"
    and "i < j" and "j < length items"
  shows "(isPinned (items ! j) \<longrightarrow> isPinned (items ! i))
       \<and> (isPinned (items ! i) = isPinned (items ! j)
            \<longrightarrow> updatedAt (items ! j) \<le> updatedAt (items ! i))"
proof -
  from assms(1) have "sorted_wrt (\<lambda>a b. noteCompare a b \<le> 0) items"
    using sorted_paginatedNotes [of allNotes params] sorted_filteredNotes [of allNotes params]
    by auto
  with assms(2,3) have "noteCompare (items ! i) (items ! j) \<le> 0"
    by (simp add: sorted_wrt_iff_nth_less)
  then show ?thesis by (auto simp: noteCompare_le_iff)
qed

theorem listing_order_witness:
  "(0::nat) < 1
   \<and> 1 < length (v_paginatedNotes (NotesPage exampleNotes noParams))
   \<and> isPinned (v_paginatedNotes (NotesPage exampleNotes noParams) ! 0)
   \<and> updatedAt (v_paginatedNotes (NotesPage exampleNotes noParams) ! 1)
       \<le> updatedAt (v_paginatedNotes (NotesPage exampleNotes noParams) ! 0)"
proof -
  let ?items = "v_paginatedNotes (NotesPage exampleNotes noParams)"
  have len: "1 < length ?items" by code_simp
  have later: "isPinned (?items ! 1)" by code_simp
  from listing_order [of ?items exampleNotes noParams 0 1] len
  have "(isPinned (?items ! 1) \<longrightarrow> isPinned (?items ! 0))
      \<and> (isPinned (?items ! 0) = isPinned (?items ! 1)
           \<longrightarrow> updatedAt (?items ! 1) \<le> updatedAt (?items ! 0))"
    by simp
  with later len show ?thesis by simp
qed

subsection \<open>C2\<close>

text \<open>
  Claim C2. For every raw \<open>page\<close> and \<open>pageSize\<close>, missing, non-numeric and negative
  ones included, the normalized page is an integer from 1 on (1 when the input is
  non-positive, non-numeric or missing) and the normalized page size an integer in
  \<open>[5, 100]\<close> (20 when missing, clamped otherwise).

  The page computes \<open>Math.max(parseInt(page || "1"), 1)\<close>. For a parameter with no
  leading digits \<open>parseInt\<close> is \<open>NaN\<close>, and \<open>Math.max\<close> and \<open>Math.min\<close> of \<open>NaN\<close> are
  \<open>NaN\<close>: the page of the request \<open>?page=abc\<close> is \<open>NaN\<close>, not 1, and the page size of
  \<open>?pageSize=abc\<close> is \<open>NaN\<close>, outside \<open>[5, 100]\<close>; the listing shown is then empty.
  Lemmas \<open>page_shape\<close>, \<open>pageSize_shape\<close>, \<open>page_missing\<close> and \<open>pageSize_missing\<close>
  give the part of the claim that the code keeps.
\<close>

theorem nonnumeric_page_is_NaN:
  "v_page (NotesPage allNotes (params\<lparr>sp_page := Some ''abc''\<rparr>)) = NaN
   \<and> v_pageSize (NotesPage allNotes (params\<lparr>sp_pageSize := Some ''abc''\<rparr>)) = NaN
   \<and> v_paginatedNotes (NotesPage allNotes (params\<lparr>sp_page := Some ''abc''\<rparr>)) = []"
proof -
  have nan: "parseInt ''abc'' = NaN" using parseInt_plain_examples by simp
  have 1: "v_page (NotesPage allNotes (params\<lparr>sp_page := Some ''abc''\<rparr>)) = NaN"
    by (simp add: NotesPage_page orDefault_def nan)
  have 2: "v_pageSize (NotesPage allNotes (params\<lparr>sp_pageSize := Some ''abc''\<rparr>)) = NaN"
    by (simp add: NotesPage_pageSize orDefault_def nan)
  have "v_startIndex (NotesPage allNotes (params\<lparr>sp_page := Some ''abc''\<rparr>)) = NaN"
    by (simp add: NotesPage_startIndex 1 js_sub_def)
  then have 3: "v_paginatedNotes (NotesPage allNotes (params\<lparr>sp_page := Some ''abc''\<rparr>)) = []"
    by (simp add: NotesPage_paginatedNotes slice_eq sliceIndex_def)
  from 1 2 3 show ?thesis by simp
qed

subsection \<open>C3\<close>

text \<open>
  Claim C3. The query \<open>q\<close> is trimmed before evaluation, and whenever the trimmed length
  is below 2 the search predicate is dropped at the query layer: the listing equals the
  listing with no \<open>q\<close> at all.

  The page takes \<open>searchParams.q || ""\<close> as it is and tests its untrimmed length; only the
  toolbar trims (\<open>updateURL\<close>, lemma \<open>updateURL_query\<close>). For the request \<open>?q=%20%20\<close>
  (two spaces, trimmed length 0) the page searches the mock notes for two spaces in a row
  and lists nothing, where the request without \<open>q\<close> lists all three. Lemma
  \<open>short_query_is_no_query\<close> gives what holds: a query of fewer than two characters
  as received is dropped.
\<close>

theorem padded_query_is_searched:
  "length (trim ''  '') < 2
   \<and> v_filteredNotes (NotesPage (getMockNotes 1700000000000) (noParams\<lparr>sp_q := Some ''  ''\<rparr>)) = []
   \<and> length (v_filteredNotes (NotesPage (getMockNotes 1700000000000) noParams)) = 3"
  by code_simp

subsection \<open>C4\<close>




subsection \<open>C5\<close>

text \<open>
  Claim C5. For every total and every normalized page size the reported \<open>pageCount\<close> is
  \<open>max(ceil(total / pageSize), 1)\<close>; in particular it is 1 when the total is 0. Here the
  total is the number of notes that pass the filter, and the page size is normalized when
  it is a number (then an integer in \<open>[5, 100]\<close>, lemma \<open>pageSize_Fin\<close>).
\<close>

theorem pageCount_formula:
  assumes "v_pageSize (NotesPage allNotes params) = Fin s"
  shows "v_pageCount (NotesPage allNotes params)
           = Fin (of_int (max \<lceil>of_nat (v_total (NotesPage allNotes params)) / s\<rceil> 1))
       \<and> (v_total (NotesPage allNotes params) = 0
            \<longrightarrow> v_pageCount (NotesPage allNotes params) = Fin 1)"
proof -
  from pageSize_Fin [OF assms] obtain n :: int where n: "5 \<le> n" "s = of_int n" by blast
  then have s0: "s \<noteq> 0" by simp
  let ?t = "of_nat (v_total (NotesPage allNotes params)) :: rat"
  have "v_pageCount (NotesPage allNotes params)
          = Math_max (Math_ceil (js_div (Fin ?t) (Fin s))) (Fin 1)"
    by (simp add: NotesPage_pageCount assms)
  also have "\<dots> = Fin (max (of_int \<lceil>?t / s\<rceil>) 1)"
    using s0 by simp
  also have "max (of_int \<lceil>?t / s\<rceil>) (1::rat) = of_int (max \<lceil>?t / s\<rceil> 1)"
    by (simp add: max_def)
  finally have "v_pageCount (NotesPage allNotes params) = Fin (of_int (max \<lceil>?t / s\<rceil> 1))" .
  then show ?thesis by auto
qed

theorem pageCount_formula_witness:
  "v_pageSize (NotesPage exampleNotes (noParams\<lparr>sp_pageSize := Some ''5''\<rparr>)) = Fin 5
   \<and> v_total (NotesPage exampleNotes (noParams\<lparr>sp_pageSize := Some ''5''\<rparr>)) = 6
   \<and> v_pageCount (NotesPage exampleNotes (noParams\<lparr>sp_pageSize := Some ''5''\<rparr>)) = Fin 2"
proof -
  let ?r = "NotesPage exampleNotes (noParams\<lparr>sp_pageSize := Some ''5''\<rparr>)"
  have ps: "v_pageSize ?r = Fin 5" by code_simp
  have t: "v_total ?r = 6" by code_simp
  have c: "\<lceil>(6::rat) / 5\<rceil> = 2" by code_simp
  from pageCount_formula [OF ps]
  have "v_pageCount ?r = Fin (of_int (max \<lceil>of_nat (v_total ?r) / (5::rat)\<rceil> 1))" by blast
  with t c have "v_pageCount ?r = Fin 2" by simp
  with ps t show ?thesis by simp
qed

subsection \<open>C6\<close>

text \<open>
  Claim C6. When the \<open>includeArchived\<close> parameter is anything but the explicit flag (the
  string \<open>"true"\<close>), so in particular when it is absent, no archived note is in the
  listing: neither among the notes that pass the filter nor on the page returned.
  Archived notes appear only when the flag is set.
\<close>

theorem archived_excluded_by_default:
  assumes "sp_includeArchived params \<noteq> Some ''true''"
    and "n \<in> set (v_filteredNotes (NotesPage allNotes params))
           \<union> set (v_paginatedNotes (NotesPage allNotes params))"
  shows "\<not> isArchived n"
proof -
  from assms(2) paginated_subset_filtered [of allNotes params]
  have "n \<in> set (v_filteredNotes (NotesPage allNotes params))" by auto
  then have "noteFilter False (orNull (sp_category params)) (orDefault (sp_q params) []) n"
    using assms(1) by (simp add: filteredNotes_set)
  then show ?thesis by (auto simp: noteFilter_def split: if_splits)
qed

theorem archived_excluded_by_default_witness:
  "sp_includeArchived (noParams\<lparr>sp_includeArchived := Some ''1''\<rparr>) \<noteq> Some ''true''
   \<and> exampleNotes ! 0
       \<in> set (v_filteredNotes (NotesPage exampleNotes (noParams\<lparr>sp_includeArchived := Some ''1''\<rparr>)))
         \<union> set (v_paginatedNotes (NotesPage exampleNotes (noParams\<lparr>sp_includeArchived := Some ''1''\<rparr>)))
   \<and> \<not> isArchived (exampleNotes ! 0)
   \<and> isArchived (exampleNotes ! 2)
   \<and> exampleNotes ! 2
       \<notin> set (v_filteredNotes (NotesPage exampleNotes (noParams\<lparr>sp_includeArchived := Some ''1''\<rparr>)))
         \<union> set (v_paginatedNotes (NotesPage exampleNotes (noParams\<lparr>sp_includeArchived := Some ''1''\<rparr>)))"
proof -
  let ?p = "noParams\<lparr>sp_includeArchived := Some ''1''\<rparr>"
  let ?listed = "set (v_filteredNotes (NotesPage exampleNotes ?p))
                   \<union> set (v_paginatedNotes (NotesPage exampleNotes ?p))"
  have flag: "sp_includeArchived ?p \<noteq> Some ''true''" by simp
  have listed: "exampleNotes ! 0 \<in> ?listed" by code_simp
  have archived: "isArchived (exampleNotes ! 2)" by code_simp
  from archived_excluded_by_default [OF flag listed]
  have a: "\<not> isArchived (exampleNotes ! 0)" .
  from archived_excluded_by_default [OF flag, of "exampleNotes ! 2" exampleNotes] archived
  have b: "exampleNotes ! 2 \<notin> ?listed" by blast
  from flag listed a archived b show ?thesis by blast
qed

subsection \<open>C7\<close>

text \<open>
  Claim C7. When the search predicate is active (the trimmed \<open>q\<close> has at least two
  characters), a note is in the filtered set if and only if its title or its content
  contains \<open>q\<close> as a case-insensitive substring.

  The query of the claim is the trimmed one, and the page matches the query as it
  arrives (lemma \<open>filteredNotes_search_iff\<close>): the missing trim of C3 again. For the
  request \<open>?q=notes%20\<close> on the mock notes the trimmed query \<open>notes\<close> has five characters
  and the titles \<open>Welcome to Notes\<close> and \<open>Meeting Notes\<close> contain it up to case, yet the
  page looks for \<open>notes\<close> followed by a space and lists nothing. The same request with
  the query already trimmed, as the toolbar sends it, lists both notes.
\<close>

theorem padded_query_misses_matching_notes:
  "trim ''notes '' = ''notes''
   \<and> 2 \<le> length (trim ''notes '')
   \<and> title (getMockNotes 1700000000000 ! 0) = ''Welcome to '' @ ''Notes''
   \<and> title (getMockNotes 1700000000000 ! 2) = ''Meeting '' @ ''Notes''
   \<and> v_filteredNotes (NotesPage (getMockNotes 1700000000000) (noParams\<lparr>sp_q := Some ''notes ''\<rparr>))
       = []
   \<and> map id_note
        (v_filteredNotes (NotesPage (getMockNotes 1700000000000) (noParams\<lparr>sp_q := Some ''notes''\<rparr>)))
       = [''1'', ''3'']"
  by code_simp

subsection \<open>C8\<close>

text \<open>
  Claim C8. A page beyond the available results is not an error: for every normalized
  page whose offset \<open>(page - 1) * pageSize\<close> is at least the number of matching notes, the
  listing returns an empty list of items. \<open>NotesPage\<close> has no failing branch (neither
  \<open>slice\<close> nor the arithmetic before it throws), so the view is always returned.
\<close>

theorem page_beyond_results_is_empty:
  assumes "v_page (NotesPage allNotes params) = Fin p"
    and "v_pageSize (NotesPage allNotes params) = Fin s"
    and "of_nat (v_total (NotesPage allNotes params)) \<le> (p - 1) * s"
  shows "v_paginatedNotes (NotesPage allNotes params) = []"
proof -
  have "v_startIndex (NotesPage allNotes params) = Fin ((p - 1) * s)"
    by (simp add: NotesPage_startIndex assms js_sub_def)
  moreover have "sliceIndex (length (v_filteredNotes (NotesPage allNotes params)))
                   (Fin ((p - 1) * s))
      = length (v_filteredNotes (NotesPage allNotes params))"
    using assms(3) by (intro sliceIndex_beyond) (simp add: NotesPage_total)
  ultimately show ?thesis
    by (simp add: NotesPage_paginatedNotes slice_eq)
qed

theorem page_beyond_results_is_empty_witness:
  "v_page (NotesPage exampleNotes (noParams\<lparr>sp_pageSize := Some ''5'', sp_page := Some ''3''\<rparr>))
     = Fin 3
   \<and> v_pageSize (NotesPage exampleNotes (noParams\<lparr>sp_pageSize := Some ''5'', sp_page := Some ''3''\<rparr>))
     = Fin 5
   \<and> v_total (NotesPage exampleNotes (noParams\<lparr>sp_pageSize := Some ''5'', sp_page := Some ''3''\<rparr>))
     = 6
   \<and> v_paginatedNotes
       (NotesPage exampleNotes (noParams\<lparr>sp_pageSize := Some ''5'', sp_page := Some ''3''\<rparr>))
     = []"
proof -
  let ?r = "NotesPage exampleNotes (noParams\<lparr>sp_pageSize := Some ''5'', sp_page := Some ''3''\<rparr>)"
  have p: "v_page ?r = Fin 3" by code_simp
  have s: "v_pageSize ?r = Fin 5" by code_simp
  have t: "v_total ?r = 6" by code_simp
  then have off: "of_nat (v_total ?r) \<le> ((3::rat) - 1) * 5" by simp
  from page_beyond_results_is_empty [OF p s off] have "v_paginatedNotes ?r = []" .
  with p s t show ?thesis by simp
qed

subsection \<open>C9\<close>

text \<open>
  Claim C9. \<open>getCategoryColor\<close> is total on arbitrary strings: a palette key gives its
  hex value, every other string (the empty one included) gives the slate fallback
  \<open>"#64748b"\<close>, and it never fails.

  It never throws, and palette keys give their values (lemma
  \<open>getCategoryColor_palette\<close>). But \<open>colorMap[colorName]\<close> also finds what the object
  literal inherits from \<open>Object.prototype\<close>: for \<open>"constructor"\<close> it is the function
  \<open>Object\<close>, which is truthy, so the fallback is not taken and the result is not a string
  at all, against the declared return type. The same happens for \<open>"toString"\<close>,
  \<open>"valueOf"\<close>, \<open>"hasOwnProperty"\<close>, \<open>"__proto__"\<close> and the other inherited names (lemma
  \<open>getCategoryColor_inherited\<close>); every remaining string gives slate (lemma
  \<open>getCategoryColor_fallback\<close>).
\<close>

theorem getCategoryColor_inherited_key:
  "getCategoryColor ''constructor'' = Builtin ''Object''
   \<and> getCategoryColor ''constructor'' \<noteq> Str ''#64748b''
   \<and> map_of colorMap ''constructor'' = None"
  by code_simp

subsection \<open>C10\<close>

text \<open>
  Claim C10. For every \<open>pageCount\<close> from 1 on and \<open>currentPage\<close> between 1 and
  \<open>pageCount\<close>, the numeric entries of the list made by \<open>getPageNumbers\<close> increase
  strictly and lie between 1 and \<open>pageCount\<close>; when \<open>pageCount\<close> exceeds 5 the list
  begins with page 1 and ends with page \<open>pageCount\<close>, and otherwise it is exactly the
  pages 1 to \<open>pageCount\<close>.
\<close>

theorem getPageNumbers_shape:
  assumes "1 \<le> pageCount" and "1 \<le> currentPage" and "currentPage \<le> pageCount"
  shows "sorted_wrt (<) (numericEntries (getPageNumbers currentPage pageCount))
       \<and> (\<forall>n \<in> set (numericEntries (getPageNumbers currentPage pageCount)).
            1 \<le> n \<and> n \<le> pageCount)
       \<and> (5 < pageCount \<longrightarrow>
            (\<exists>mid. getPageNumbers currentPage pageCount
                      = PageNum 1 # mid @ [PageNum pageCount]))
       \<and> (pageCount \<le> 5 \<longrightarrow> getPageNumbers currentPage pageCount = map PageNum [1..pageCount])"
proof (cases "pageCount \<le> 5")
  case True
  then have e: "getPageNumbers currentPage pageCount = map PageNum [1..pageCount]"
    by (rule getPageNumbers_small)
  show ?thesis using True
    by (simp add: e numericEntries_PageNum)
next
  case False
  then have big: "5 < pageCount" by simp
  note e = getPageNumbers_large [OF big assms(2,3)]
  let ?lo = "max 2 (currentPage - 1)" and ?hi = "min (pageCount - 1) (currentPage + 1)"
  have ne: "numericEntries (getPageNumbers currentPage pageCount) = 1 # [?lo..?hi] @ [pageCount]"
    by (simp add: e numericEntries_append numericEntries_PageNum)
  have s: "sorted_wrt (<) (1 # [?lo..?hi] @ [pageCount])"
    using big by (auto simp: sorted_wrt_append)
  have r: "\<forall>n \<in> set (1 # [?lo..?hi] @ [pageCount]). 1 \<le> n \<and> n \<le> pageCount"
    using big by auto
  have f: "\<exists>mid. getPageNumbers currentPage pageCount = PageNum 1 # mid @ [PageNum pageCount]"
    using e by blast
  from s r f big show ?thesis unfolding ne by simp
qed

theorem getPageNumbers_shape_witness:
  "(1::int) \<le> 10 \<and> (1::int) \<le> 5 \<and> (5::int) \<le> 10
   \<and> sorted_wrt (<) (numericEntries (getPageNumbers 5 10))
   \<and> (\<exists>mid. getPageNumbers 5 10 = PageNum 1 # mid @ [PageNum 10])"
  using getPageNumbers_shape [of 10 5] by simp

end
